theory Spec2Isabelle
  imports Main "HOL-Library.Word"
begin

unbundle bit_operations_syntax

section \<open>Data model of vcmatrixproperties.cpp\<close>

text \<open>
  The properties dialog of a virtual-console matrix (class \<open>VCMatrixProperties\<close>).
  Every slot of the dialog is a function from the state before the call to the state
  after it. What a child dialog returns (a colour, a text, a selection) is an argument
  of the slot that opens it.
\<close>

type_synonym quint8 = "8 word"
type_synonym quint32 = "32 word"
type_synonym QString = string
type_synonym QKeySequence = "nat list"
type_synonym addr = nat

record QLCInputSource =
  universe :: quint32
  channel :: quint32

datatype QColor = QColor_invalid | QColor_rgb quint8 quint8 quint8

fun isValid :: "QColor \<Rightarrow> bool" where
  "isValid QColor_invalid = False"
| "isValid (QColor_rgb r g b) = True"

datatype ControlType = StartColor | EndColor | Animation | Image | Text

text \<open>
  A custom control. Control ids are \<open>quint8\<close>: \<open>removeControl(quint8 id)\<close> and the
  \<open>quint8 ctlID\<close> locals compare them at that width. A working control is a private
  object of the dialog (made by \<open>new VCMatrixControl(...)\<close>), and its input source
  belongs to it alone, so the control is a value and its input source a field of it.
\<close>

record VCMatrixControl =
  m_id :: quint8
  m_type :: ControlType
  m_color :: QColor
  m_resource :: QString
  m_inputSource :: "QLCInputSource option"
  m_keySequence :: QKeySequence

text \<open>
  Modelled from the spec: the constructor \<open>VCMatrixControl(quint8 id)\<close>, declared
  outside this file. A new control has the given id, no input source and no key
  sequence; every caller sets the type and the payload itself.
\<close>

definition VCMatrixControl_new :: "quint8 \<Rightarrow> VCMatrixControl" where
  "VCMatrixControl_new i =
     \<lparr>m_id = i, m_type = StartColor, m_color = QColor_invalid, m_resource = [],
      m_inputSource = None, m_keySequence = []\<rparr>"

text \<open>
  Modelled from the spec: the copy constructor \<open>VCMatrixControl(const VCMatrixControl *)\<close>,
  declared outside this file; the spec has it copy every field (a deep copy).
\<close>

definition VCMatrixControl_copy :: "VCMatrixControl \<Rightarrow> VCMatrixControl" where
  "VCMatrixControl_copy c =
     \<lparr>m_id = m_id c, m_type = m_type c, m_color = m_color c, m_resource = m_resource c,
      m_inputSource = m_inputSource c, m_keySequence = m_keySequence c\<rparr>"

text \<open>
  Modelled from the spec: the matrix widget \<open>VCMatrix\<close>, declared outside this file. The
  dialog reads \<open>caption()\<close>, \<open>function()\<close>, \<open>instantChanges()\<close>, \<open>inputSource()\<close>,
  \<open>customControls()\<close>, \<open>page()\<close> and \<open>id()\<close>. The slider's input source is a nullable
  pointer to a \<open>QLCInputSource\<close> object: the dialog tests it against \<open>NULL\<close> and
  deletes it, so the matrix holds an address into the store of such objects.
\<close>

record VCMatrix =
  caption :: QString
  func :: quint32
  instantChanges :: bool
  inputSource :: "addr option"
  customControls :: "VCMatrixControl list"
  page :: quint32
  widget_id :: quint32

definition setCaption :: "QString \<Rightarrow> VCMatrix \<Rightarrow> VCMatrix" where
  "setCaption t m = m\<lparr>caption := t\<rparr>"

definition setFunction :: "quint32 \<Rightarrow> VCMatrix \<Rightarrow> VCMatrix" where
  "setFunction f m = m\<lparr>func := f\<rparr>"

definition setInstantChanges :: "bool \<Rightarrow> VCMatrix \<Rightarrow> VCMatrix" where
  "setInstantChanges b m = m\<lparr>instantChanges := b\<rparr>"

definition setInputSource :: "addr option \<Rightarrow> VCMatrix \<Rightarrow> VCMatrix" where
  "setInputSource p m = m\<lparr>inputSource := p\<rparr>"

definition resetCustomControls :: "VCMatrix \<Rightarrow> VCMatrix" where
  "resetCustomControls m = m\<lparr>customControls := []\<rparr>"

definition addCustomControl :: "VCMatrixControl \<Rightarrow> VCMatrix \<Rightarrow> VCMatrix" where
  "addCustomControl c m = m\<lparr>customControls := customControls m @ [c]\<rparr>"

text \<open>
  Modelled from the spec: the document \<open>Doc\<close>, declared outside this file. It resolves
  a function id to a function (or \<open>NULL\<close>), and an input source to the names of its
  universe and channel (or fails).
\<close>

record Function =
  func_name :: QString

record Doc =
  doc_function :: "quint32 \<Rightarrow> Function option"
  inputSourceNames :: "QLCInputSource option \<Rightarrow> (QString \<times> QString) option"

definition KInputNone :: QString where
  "KInputNone = ''None''"

definition Function_invalidId :: quint32 where
  "Function_invalidId = - 1"

datatype slot = SliderInputValueChanged | ControlInputValueChanged

datatype DialogCode = Rejected | Accepted

text \<open>
  The state a slot works on: the store of \<open>QLCInputSource\<close> objects (\<open>new\<close> takes the
  next address and never one that was used before, \<open>delete\<close> empties a cell), the matrix behind \<open>m_matrix\<close>, the connections
  of the input map's \<open>inputValueChanged\<close> signal to this dialog, and the members and
  widgets of the dialog. A tree item is the control id it carries in \<open>Qt::UserRole\<close>;
  \<open>selectedItem\<close> is the item of \<open>selectedItems().first()\<close>, if any.
\<close>

record dialog_state =
  heap :: "addr \<rightharpoonup> QLCInputSource"
  heap_next :: addr
  m_matrix :: VCMatrix
  m_doc :: Doc
  connections :: "slot list"
  dialog_result :: "DialogCode option"
  m_lastAssignedID :: quint8
  m_function :: quint32
  m_sliderInputSource :: "addr option"
  m_controls :: "VCMatrixControl list"
  m_nameEdit :: QString
  m_functionEdit :: QString
  m_instantCheck :: bool
  m_inputUniverseEdit :: QString
  m_inputChannelEdit :: QString
  m_controlsTree :: "quint8 list"
  selectedItem :: "quint8 option"
  m_controlInputUniverseEdit :: QString
  m_controlInputChannelEdit :: QString
  m_keyEdit :: QKeySequence

definition deref :: "dialog_state \<Rightarrow> addr option \<Rightarrow> QLCInputSource option" where
  "deref s p = (case p of None \<Rightarrow> None | Some a \<Rightarrow> heap s a)"

definition new_QLCInputSource :: "quint32 \<Rightarrow> quint32 \<Rightarrow> dialog_state \<Rightarrow> addr \<times> dialog_state" where
  "new_QLCInputSource u c s =
     (heap_next s,
      s\<lparr>heap := (heap s)(heap_next s \<mapsto> \<lparr>universe = u, channel = c\<rparr>),
        heap_next := Suc (heap_next s)\<rparr>)"

definition delete_QLCInputSource :: "addr \<Rightarrow> dialog_state \<Rightarrow> dialog_state" where
  "delete_QLCInputSource a s = s\<lparr>heap := (heap s)(a := None)\<rparr>"

section \<open>Strings\<close>

text \<open>\<open>QChar::isSpace\<close> on the characters of a byte string.\<close>

definition isSpace :: "char \<Rightarrow> bool" where
  "isSpace c = (c \<in> set [CHR '' '', CHR 0x09, CHR 0x0A, CHR 0x0B, CHR 0x0C, CHR 0x0D])"

text \<open>\<open>QString::trimmed\<close>: white space removed from both ends.\<close>

definition trimmed :: "QString \<Rightarrow> QString" where
  "trimmed t = rev (dropWhile isSpace (rev (dropWhile isSpace t)))"

text \<open>Every run of white space becomes one space.\<close>

function collapse :: "QString \<Rightarrow> QString" where
  "collapse [] = []"
| "collapse (c # cs) =
     (if isSpace c then CHR '' '' # collapse (dropWhile isSpace cs) else c # collapse cs)"
  by pat_completeness auto
termination
  by (relation "measure length") (auto simp: length_dropWhile_le less_Suc_eq_le)

text \<open>\<open>QString::simplified\<close>: trimmed, and each inner run of white space one space.\<close>

definition simplified :: "QString \<Rightarrow> QString" where
  "simplified t = collapse (trimmed t)"

definition digit_char :: "nat \<Rightarrow> char" where
  "digit_char d = ''0123456789'' ! d"

text \<open>\<open>QString::number\<close> of an unsigned value: its decimal digits.\<close>

function QString_number :: "nat \<Rightarrow> QString" where
  "QString_number n =
     (if n < 10 then [digit_char n] else QString_number (n div 10) @ [digit_char (n mod 10)])"
  by pat_completeness auto
termination
  by (relation "measure id") auto

text \<open>\<open>QString::contains\<close>: the second string occurs in the first.\<close>

fun contains :: "QString \<Rightarrow> QString \<Rightarrow> bool" where
  "contains [] t = (t = [])"
| "contains (c # cs) t = (take (length t) (c # cs) = t \<or> contains cs t)"

section \<open>The dialog\<close>

subsection \<open>Sorting the working list\<close>

fun compareControlsID :: "VCMatrixControl \<Rightarrow> VCMatrixControl \<Rightarrow> bool" where
  "compareControlsID ctl1 ctl2 = (if m_id ctl1 < m_id ctl2 then True else False)"

text \<open>
  \<open>qSort(begin, end, lessThan)\<close> orders a list by the comparison it is given. The
  order it leaves between elements that compare equal is not fixed by the library; the
  model sorts by insertion.
\<close>

fun qSort_insert :: "('a \<Rightarrow> 'a \<Rightarrow> bool) \<Rightarrow> 'a \<Rightarrow> 'a list \<Rightarrow> 'a list" where
  "qSort_insert lt x [] = [x]"
| "qSort_insert lt x (y # ys) =
     (if lt x y then x # y # ys else y # qSort_insert lt x ys)"

fun qSort :: "('a \<Rightarrow> 'a \<Rightarrow> bool) \<Rightarrow> 'a list \<Rightarrow> 'a list" where
  "qSort lt [] = []"
| "qSort lt (x # xs) = qSort_insert lt x (qSort lt xs)"

subsection \<open>Matrix function\<close>

definition slotSetFunction :: "quint32 \<Rightarrow> dialog_state \<Rightarrow> dialog_state" where
  "slotSetFunction fid s =
     (let s1 = s\<lparr>m_function := fid\<rparr> in
      case doc_function (m_doc s1) (m_function s1) of
        None \<Rightarrow> s1\<lparr>m_functionEdit := ''No function''\<rparr>
      | Some f \<Rightarrow>
          (let s2 = s1\<lparr>m_functionEdit := func_name f\<rparr> in
           if contains (simplified (m_nameEdit s2))
                (QString_number (unat (widget_id (m_matrix s2))))
           then s2\<lparr>m_nameEdit := func_name f\<rparr>
           else s2))"

text \<open>
  \<open>slotAttachFunction\<close>: the arguments are what the function selection returned,
  whether it was accepted and its selection.
\<close>

definition slotAttachFunction :: "bool \<Rightarrow> quint32 list \<Rightarrow> dialog_state \<Rightarrow> dialog_state" where
  "slotAttachFunction accepted selection s =
     (if accepted \<and> length selection > 0 then slotSetFunction (hd selection) s else s)"

text \<open>
  The detach button is connected to \<open>slotSetFunction()\<close> with no argument.
  Modelled from the spec: the default argument, declared outside this file, is the
  "no function" id.
\<close>

definition slotDetachFunction :: "dialog_state \<Rightarrow> dialog_state" where
  "slotDetachFunction s = slotSetFunction Function_invalidId s"

subsection \<open>Slider external input\<close>

definition slotAutoDetectSliderInputToggled :: "bool \<Rightarrow> dialog_state \<Rightarrow> dialog_state" where
  "slotAutoDetectSliderInputToggled checked s =
     (if checked = True
      then s\<lparr>connections := connections s @ [SliderInputValueChanged]\<rparr>
      else s\<lparr>connections := removeAll SliderInputValueChanged (connections s)\<rparr>)"

definition updateSliderInputSource :: "dialog_state \<Rightarrow> dialog_state" where
  "updateSliderInputSource s =
     (case inputSourceNames (m_doc s) (deref s (m_sliderInputSource s)) of
        None \<Rightarrow> s\<lparr>m_inputUniverseEdit := KInputNone, m_inputChannelEdit := KInputNone\<rparr>
      | Some (uniName, chName) \<Rightarrow>
          s\<lparr>m_inputUniverseEdit := uniName, m_inputChannelEdit := chName\<rparr>)"

definition slotSliderInputValueChanged :: "quint32 \<Rightarrow> quint32 \<Rightarrow> dialog_state \<Rightarrow> dialog_state" where
  "slotSliderInputValueChanged u c s =
     (let s1 = (case m_sliderInputSource s of
                  None \<Rightarrow> s
                | Some a \<Rightarrow> delete_QLCInputSource a s);
          (p, s2) = new_QLCInputSource u (push_bit 16 (page (m_matrix s1)) OR c) s1
      in updateSliderInputSource (s2\<lparr>m_sliderInputSource := Some p\<rparr>))"

text \<open>
  \<open>slotChooseSliderInputClicked\<close>: the arguments are what the channel selection
  returned, whether it was accepted, its universe and its channel.
\<close>

definition slotChooseSliderInputClicked ::
    "bool \<Rightarrow> quint32 \<Rightarrow> quint32 \<Rightarrow> dialog_state \<Rightarrow> dialog_state" where
  "slotChooseSliderInputClicked accepted u c s =
     (if accepted then
        (let s1 = (case m_sliderInputSource s of
                     None \<Rightarrow> s
                   | Some a \<Rightarrow> delete_QLCInputSource a s);
             (p, s2) = new_QLCInputSource u c s1
         in updateSliderInputSource (s2\<lparr>m_sliderInputSource := Some p\<rparr>))
      else s)"

subsection \<open>The tree of controls\<close>

text \<open>
  \<open>updateTree\<close> clears the tree, which drops the selection, and makes one item per
  working control, carrying the control's id. Icons and column texts are left out.
\<close>

definition updateTree :: "dialog_state \<Rightarrow> dialog_state" where
  "updateTree s = s\<lparr>m_controlsTree := map m_id (m_controls s), selectedItem := None\<rparr>"

text \<open>The \<open>foreach\<close> of \<open>getSelectedControl\<close>: the position of the first control with the id.\<close>

fun findControl :: "quint8 \<Rightarrow> VCMatrixControl list \<Rightarrow> nat option" where
  "findControl ctlID [] = None"
| "findControl ctlID (control # rest) =
     (if m_id control = ctlID then Some 0 else map_option Suc (findControl ctlID rest))"

text \<open>\<open>getSelectedControl\<close> returns a pointer into \<open>m_controls\<close>: here, a position in it.\<close>

definition getSelectedControl :: "dialog_state \<Rightarrow> nat option" where
  "getSelectedControl s =
     (case selectedItem s of
        None \<Rightarrow> None
      | Some ctlID \<Rightarrow> findControl ctlID (m_controls s))"

subsection \<open>Custom controls\<close>

definition addControl :: "VCMatrixControl \<Rightarrow> dialog_state \<Rightarrow> dialog_state" where
  "addControl control s = s\<lparr>m_controls := m_controls s @ [control]\<rparr>"

function removeControl_loop :: "nat \<Rightarrow> quint8 \<Rightarrow> VCMatrixControl list \<Rightarrow> VCMatrixControl list" where
  "removeControl_loop i cid cs =
     (if i < length cs then
        (if m_id (cs ! i) = cid then take i cs @ drop (Suc i) cs
         else removeControl_loop (Suc i) cid cs)
      else cs)"
  by pat_completeness auto
termination
  by (relation "measure (\<lambda>(i, cid, cs). length cs - i)") auto

definition removeControl :: "quint8 \<Rightarrow> dialog_state \<Rightarrow> dialog_state" where
  "removeControl cid s = s\<lparr>m_controls := removeControl_loop 0 cid (m_controls s)\<rparr>"

text \<open>The four add slots: the argument is what the colour or input dialog returned.\<close>

definition slotAddStartColorClicked :: "QColor \<Rightarrow> dialog_state \<Rightarrow> dialog_state" where
  "slotAddStartColorClicked col s =
     (if isValid col = True then
        (let s1 = s\<lparr>m_lastAssignedID := m_lastAssignedID s + 1\<rparr>;
             newControl = (VCMatrixControl_new (m_lastAssignedID s1))
                            \<lparr>m_type := StartColor, m_color := col\<rparr>
         in updateTree (addControl newControl s1))
      else s)"

definition slotAddEndColorClicked :: "QColor \<Rightarrow> dialog_state \<Rightarrow> dialog_state" where
  "slotAddEndColorClicked col s =
     (if isValid col = True then
        (let s1 = s\<lparr>m_lastAssignedID := m_lastAssignedID s + 1\<rparr>;
             newControl = (VCMatrixControl_new (m_lastAssignedID s1))
                            \<lparr>m_type := EndColor, m_color := col\<rparr>
         in updateTree (addControl newControl s1))
      else s)"

definition slotAddAnimationClicked :: "bool \<Rightarrow> QString \<Rightarrow> dialog_state \<Rightarrow> dialog_state" where
  "slotAddAnimationClicked ok text s =
     (if ok \<and> \<not> (text = []) then
        (let s1 = s\<lparr>m_lastAssignedID := m_lastAssignedID s + 1\<rparr>;
             newControl = (VCMatrixControl_new (m_lastAssignedID s1))
                            \<lparr>m_type := Animation, m_resource := text\<rparr>
         in updateTree (addControl newControl s1))
      else s)"

definition slotAddTextClicked :: "bool \<Rightarrow> QString \<Rightarrow> dialog_state \<Rightarrow> dialog_state" where
  "slotAddTextClicked ok text s =
     (if ok \<and> \<not> (text = []) then
        (let s1 = s\<lparr>m_lastAssignedID := m_lastAssignedID s + 1\<rparr>;
             newControl = (VCMatrixControl_new (m_lastAssignedID s1))
                            \<lparr>m_type := Text, m_resource := text\<rparr>
         in updateTree (addControl newControl s1))
      else s)"

definition slotRemoveClicked :: "dialog_state \<Rightarrow> dialog_state" where
  "slotRemoveClicked s =
     (case selectedItem s of
        None \<Rightarrow> s
      | Some ctlID \<Rightarrow> updateTree (removeControl ctlID s))"

subsection \<open>Input and key of the selected control\<close>

definition updateControlInputSource :: "QLCInputSource option \<Rightarrow> dialog_state \<Rightarrow> dialog_state" where
  "updateControlInputSource source s =
     (case inputSourceNames (m_doc s) source of
        None \<Rightarrow>
          s\<lparr>m_controlInputUniverseEdit := KInputNone, m_controlInputChannelEdit := KInputNone\<rparr>
      | Some (uniName, chName) \<Rightarrow>
          s\<lparr>m_controlInputUniverseEdit := uniName, m_controlInputChannelEdit := chName\<rparr>)"

definition slotTreeSelectionChanged :: "dialog_state \<Rightarrow> dialog_state" where
  "slotTreeSelectionChanged s =
     (case getSelectedControl s of
        None \<Rightarrow> s
      | Some i \<Rightarrow>
          (let control = m_controls s ! i in
           (updateControlInputSource (m_inputSource control) s)
             \<lparr>m_keyEdit := m_keySequence control\<rparr>))"

text \<open>
  A click on the item of row \<open>row\<close>: the tree selects the item (single selection) and
  emits \<open>itemClicked\<close>, which runs \<open>slotTreeSelectionChanged\<close>.
\<close>

definition itemClicked :: "nat \<Rightarrow> dialog_state \<Rightarrow> dialog_state" where
  "itemClicked row s =
     (if row < length (m_controlsTree s)
      then slotTreeSelectionChanged (s\<lparr>selectedItem := Some (m_controlsTree s ! row)\<rparr>)
      else s)"

definition slotAutoDetectControlInputToggled :: "bool \<Rightarrow> dialog_state \<Rightarrow> dialog_state" where
  "slotAutoDetectControlInputToggled checked s =
     (if checked = True
      then s\<lparr>connections := connections s @ [ControlInputValueChanged]\<rparr>
      else s\<lparr>connections := removeAll ControlInputValueChanged (connections s)\<rparr>)"

definition slotControlInputValueChanged :: "quint32 \<Rightarrow> quint32 \<Rightarrow> dialog_state \<Rightarrow> dialog_state" where
  "slotControlInputValueChanged u c s =
     (case getSelectedControl s of
        None \<Rightarrow> s
      | Some i \<Rightarrow>
          (let control = (m_controls s ! i)
                 \<lparr>m_inputSource :=
                    Some \<lparr>universe = u, channel = push_bit 16 (page (m_matrix s)) OR c\<rparr>\<rparr>
           in updateControlInputSource (m_inputSource control)
                (s\<lparr>m_controls := (m_controls s)[i := control]\<rparr>)))"

definition slotChooseControlInputClicked ::
    "bool \<Rightarrow> quint32 \<Rightarrow> quint32 \<Rightarrow> dialog_state \<Rightarrow> dialog_state" where
  "slotChooseControlInputClicked accepted u c s =
     (if accepted then
        (case getSelectedControl s of
           None \<Rightarrow> s
         | Some i \<Rightarrow>
             (let control = (m_controls s ! i)
                    \<lparr>m_inputSource := Some \<lparr>universe = u, channel = c\<rparr>\<rparr>
              in updateControlInputSource (m_inputSource control)
                   (s\<lparr>m_controls := (m_controls s)[i := control]\<rparr>)))
      else s)"

text \<open>\<open>slotAttachKey\<close>: the arguments are what the hot key dialog returned.\<close>

definition slotAttachKey :: "bool \<Rightarrow> QKeySequence \<Rightarrow> dialog_state \<Rightarrow> dialog_state" where
  "slotAttachKey accepted ks s =
     (case getSelectedControl s of
        None \<Rightarrow> s
      | Some i \<Rightarrow>
          (if accepted then
             (let control = (m_controls s ! i)\<lparr>m_keySequence := ks\<rparr>
              in s\<lparr>m_controls := (m_controls s)[i := control],
                   m_keyEdit := m_keySequence control\<rparr>)
           else s))"

definition slotDetachKey :: "dialog_state \<Rightarrow> dialog_state" where
  "slotDetachKey s =
     (case getSelectedControl s of
        None \<Rightarrow> s
      | Some i \<Rightarrow>
          (let control = (m_controls s ! i)\<lparr>m_keySequence := []\<rparr>
           in s\<lparr>m_controls := (m_controls s)[i := control],
                m_keyEdit := m_keySequence control\<rparr>))"

subsection \<open>Signals of the input map\<close>

fun call_slot :: "slot \<Rightarrow> quint32 \<Rightarrow> quint32 \<Rightarrow> dialog_state \<Rightarrow> dialog_state" where
  "call_slot SliderInputValueChanged u c s = slotSliderInputValueChanged u c s"
| "call_slot ControlInputValueChanged u c s = slotControlInputValueChanged u c s"

text \<open>
  The input map emits \<open>inputValueChanged(universe, channel, value)\<close>: every connected
  slot runs once per connection, in the order the connections were made.
\<close>

fun emit_slots :: "slot list \<Rightarrow> quint32 \<Rightarrow> quint32 \<Rightarrow> dialog_state \<Rightarrow> dialog_state" where
  "emit_slots [] u c s = s"
| "emit_slots (sl # rest) u c s = emit_slots rest u c (call_slot sl u c s)"

definition inputValueChanged :: "quint32 \<Rightarrow> quint32 \<Rightarrow> quint8 \<Rightarrow> dialog_state \<Rightarrow> dialog_state" where
  "inputValueChanged u c v s = emit_slots (connections s) u c s"

subsection \<open>Closing the dialog\<close>

function accept_loop :: "nat \<Rightarrow> VCMatrixControl list \<Rightarrow> VCMatrix \<Rightarrow> VCMatrix" where
  "accept_loop i cs m =
     (if i < length cs then accept_loop (Suc i) cs (addCustomControl (cs ! i) m) else m)"
  by pat_completeness auto
termination
  by (relation "measure (\<lambda>(i, cs, m). length cs - i)") auto

definition accept :: "dialog_state \<Rightarrow> dialog_state" where
  "accept s =
     (let m1 = setCaption (m_nameEdit s) (m_matrix s);
          m2 = setFunction (m_function s) m1;
          m3 = (if m_instantCheck s then setInstantChanges True m2
                else setInstantChanges False m2);
          m4 = setInputSource (m_sliderInputSource s) m3;
          m5 = resetCustomControls m4;
          m6 = accept_loop 0 (m_controls s) m5
      in s\<lparr>m_matrix := m6, dialog_result := Some Accepted\<rparr>)"

text \<open>
  The dialog does not override \<open>reject\<close>: cancelling or closing the window only sets
  the result code.
\<close>

definition reject :: "dialog_state \<Rightarrow> dialog_state" where
  "reject s = s\<lparr>dialog_result := Some Rejected\<rparr>"




subsection \<open>Opening the dialog\<close>

text \<open>The \<open>foreach\<close> of the constructor over the matrix's custom controls.\<close>

fun ctor_loop :: "VCMatrixControl list \<Rightarrow> dialog_state \<Rightarrow> dialog_state" where
  "ctor_loop [] s = s"
| "ctor_loop (control # rest) s =
     ctor_loop rest
       (let s1 = s\<lparr>m_controls := m_controls s @ [VCMatrixControl_copy control]\<rparr>
        in if m_id control > m_lastAssignedID s1
           then s1\<lparr>m_lastAssignedID := m_id control\<rparr>
           else s1)"

text \<open>
  The dialog before the constructor's body runs: the widgets as \<open>setupUi\<close> leaves them
  (empty fields, nothing checked, nothing selected), and no connection of the input
  map to the new object.
\<close>

definition setupUi :: "VCMatrix \<Rightarrow> Doc \<Rightarrow> (addr \<rightharpoonup> QLCInputSource) \<Rightarrow> addr \<Rightarrow> dialog_state" where
  "setupUi matrix doc h n =
     \<lparr>heap = h, heap_next = n, m_matrix = matrix, m_doc = doc, connections = [],
      dialog_result = None, m_lastAssignedID = 0, m_function = 0,
      m_sliderInputSource = None, m_controls = [], m_nameEdit = [], m_functionEdit = [],
      m_instantCheck = False, m_inputUniverseEdit = [], m_inputChannelEdit = [],
      m_controlsTree = [], selectedItem = None, m_controlInputUniverseEdit = [],
      m_controlInputChannelEdit = [], m_keyEdit = []\<rparr>"

text \<open>
  The constructor, over the matrix, the document and the store of input sources
  (its cells and its next free address).
\<close>

definition VCMatrixProperties :: "VCMatrix \<Rightarrow> Doc \<Rightarrow> (addr \<rightharpoonup> QLCInputSource) \<Rightarrow> addr \<Rightarrow> dialog_state" where
  "VCMatrixProperties matrix doc h n =
     (let s0 = (setupUi matrix doc h n)\<lparr>m_lastAssignedID := 0\<rparr>;
          s1 = s0\<lparr>m_nameEdit := caption (m_matrix s0)\<rparr>;
          s2 = slotSetFunction (func (m_matrix s1)) s1;
          s3 = (if instantChanges (m_matrix s2) then s2\<lparr>m_instantCheck := True\<rparr> else s2);
          s4 = updateSliderInputSource (s3\<lparr>m_sliderInputSource := inputSource (m_matrix s3)\<rparr>);
          s5 = ctor_loop (customControls (m_matrix s4)) s4;
          s6 = s5\<lparr>m_controls := qSort compareControlsID (m_controls s5)\<rparr>
      in updateTree s6)"

section \<open>Editing sessions\<close>

text \<open>
  What can happen to an open dialog: the user edits the name or the check box, clicks a
  button (the event carries what the child dialog returned), clicks a tree item, or the
  input map reports a value.
\<close>

datatype event =
    EditName QString
  | CheckInstant bool
  | AttachFunction bool "quint32 list"
  | DetachFunction
  | ToggleSliderAutoDetect bool
  | ChooseSliderInput bool quint32 quint32
  | InputValue quint32 quint32 quint8
  | ClickItem nat
  | AddStartColor QColor
  | AddEndColor QColor
  | AddAnimation bool QString
  | AddText bool QString
  | RemoveClicked
  | ToggleControlAutoDetect bool
  | ChooseControlInput bool quint32 quint32
  | AttachKey bool QKeySequence
  | DetachKey

fun step :: "event \<Rightarrow> dialog_state \<Rightarrow> dialog_state" where
  "step (EditName t) s = s\<lparr>m_nameEdit := t\<rparr>"
| "step (CheckInstant b) s = s\<lparr>m_instantCheck := b\<rparr>"
| "step (AttachFunction accepted selection) s = slotAttachFunction accepted selection s"
| "step DetachFunction s = slotDetachFunction s"
| "step (ToggleSliderAutoDetect b) s = slotAutoDetectSliderInputToggled b s"
| "step (ChooseSliderInput accepted u c) s = slotChooseSliderInputClicked accepted u c s"
| "step (InputValue u c v) s = inputValueChanged u c v s"
| "step (ClickItem row) s = itemClicked row s"
| "step (AddStartColor col) s = slotAddStartColorClicked col s"
| "step (AddEndColor col) s = slotAddEndColorClicked col s"
| "step (AddAnimation ok t) s = slotAddAnimationClicked ok t s"
| "step (AddText ok t) s = slotAddTextClicked ok t s"
| "step RemoveClicked s = slotRemoveClicked s"
| "step (ToggleControlAutoDetect b) s = slotAutoDetectControlInputToggled b s"
| "step (ChooseControlInput accepted u c) s = slotChooseControlInputClicked accepted u c s"
| "step (AttachKey accepted ks) s = slotAttachKey accepted ks s"
| "step DetachKey s = slotDetachKey s"

fun run :: "event list \<Rightarrow> dialog_state \<Rightarrow> dialog_state" where
  "run [] s = s"
| "run (e # es) s = run es (step e s)"

text \<open>An event that makes a control: an add button whose dialog returned a payload.\<close>

fun creates :: "event \<Rightarrow> bool" where
  "creates (AddStartColor col) = isValid col"
| "creates (AddEndColor col) = isValid col"
| "creates (AddAnimation ok t) = (ok \<and> t \<noteq> [])"
| "creates (AddText ok t) = (ok \<and> t \<noteq> [])"
| "creates e = False"

text \<open>The ids given to the controls made during a session, in the order they were made.\<close>

fun assigned :: "event list \<Rightarrow> dialog_state \<Rightarrow> quint8 list" where
  "assigned [] s = []"
| "assigned (e # es) s =
     (if length (m_controls (step e s)) > length (m_controls s)
      then [m_id (last (m_controls (step e s)))] else [])
     @ assigned es (step e s)"

text \<open>What a pointer to an input source reads: the slider binding of the dialog and of the matrix.\<close>

definition slider_binding :: "dialog_state \<Rightarrow> QLCInputSource option" where
  "slider_binding s = deref s (m_sliderInputSource s)"

definition matrix_binding :: "dialog_state \<Rightarrow> QLCInputSource option" where
  "matrix_binding s = deref s (inputSource (m_matrix s))"

section \<open>A sample document, matrix and session\<close>

definition doc0 :: Doc where
  "doc0 =
     \<lparr>doc_function =
        (\<lambda>fid. if fid = 5 then Some \<lparr>func_name = ''Chase''\<rparr>
               else if fid = 7 then Some \<lparr>func_name = ''Rainbow''\<rparr>
               else None),
      inputSourceNames = (\<lambda>source. None)\<rparr>"

definition heap0 :: "addr \<rightharpoonup> QLCInputSource" where
  "heap0 = [0 \<mapsto> \<lparr>universe = 1, channel = 5\<rparr>]"

text \<open>
  A matrix with id 1 on page 2, captioned "Matrix 1", with no function, no custom
  control, and a slider input source (universe 1, channel 5) at address 0.
\<close>

definition matrix0 :: VCMatrix where
  "matrix0 =
     \<lparr>caption = ''Matrix 1'', func = Function_invalidId, instantChanges = False,
      inputSource = Some 0, customControls = [], page = 2, widget_id = 1\<rparr>"

definition dialog0 :: dialog_state where
  "dialog0 = VCMatrixProperties matrix0 doc0 heap0 1"

text \<open>
  A session on the sample dialog: the user types a name, attaches function 7, checks
  "instant changes", adds a red start colour and a text, and clicks the first row.
\<close>

definition session0 :: "event list" where
  "session0 =
     [EditName ''Foo'', AttachFunction True [7], CheckInstant True,
      AddStartColor (QColor_rgb 255 0 0), AddText True ''hi'', ClickItem 0]"

definition dialog1 :: dialog_state where
  "dialog1 = run session0 dialog0"

definition control1 :: VCMatrixControl where
  "control1 =
     \<lparr>m_id = 1, m_type = StartColor, m_color = QColor_rgb 255 0 0, m_resource = [],
      m_inputSource = None, m_keySequence = []\<rparr>"

definition control2 :: VCMatrixControl where
  "control2 =
     \<lparr>m_id = 2, m_type = Text, m_color = QColor_invalid, m_resource = ''hi'',
      m_inputSource = None, m_keySequence = []\<rparr>"

text \<open>The session goes on: the selected control is removed and an end colour is added.\<close>

definition session1 :: "event list" where
  "session1 = [RemoveClicked, AddEndColor (QColor_rgb 0 0 255)]"

section \<open>Invariant of the working list\<close>

definition control_ids :: "dialog_state \<Rightarrow> quint8 list" where
  "control_ids s = map m_id (m_controls s)"

text \<open>
  No working control has an id above \<open>m_lastAssignedID\<close>, and the working list is in
  ascending order of id.
\<close>

definition ids_bounded :: "dialog_state \<Rightarrow> bool" where
  "ids_bounded s =
     ((\<forall>i \<in> set (control_ids s). i \<le> m_lastAssignedID s) \<and> sorted (control_ids s))"

declare removeControl_loop.simps [simp del]
declare accept_loop.simps [simp del]
declare QString_number.simps [simp del]
declare compareControlsID.simps [simp del]

section \<open>Auxiliary lemmas\<close>

subsection \<open>The loop of removeControl\<close>

lemma removeControl_loop_none:
  "(\<And>j. i \<le> j \<Longrightarrow> j < length cs \<Longrightarrow> m_id (cs ! j) \<noteq> cid) \<Longrightarrow> removeControl_loop i cid cs = cs"
proof (induction i cid cs rule: removeControl_loop.induct)
  case (1 i cid cs)
  show ?case
  proof (cases "i < length cs")
    case True
    then have ne: "m_id (cs ! i) \<noteq> cid" using "1.prems" by simp
    have "removeControl_loop (Suc i) cid cs = cs"
      using "1.IH" [OF True ne] "1.prems" by simp
    with True ne show ?thesis by (subst removeControl_loop.simps) simp
  next
    case False
    then show ?thesis by (subst removeControl_loop.simps) simp
  qed
qed

lemma removeControl_loop_first:
  "i \<le> k \<Longrightarrow> k < length cs \<Longrightarrow> m_id (cs ! k) = cid \<Longrightarrow>
   (\<And>j. i \<le> j \<Longrightarrow> j < k \<Longrightarrow> m_id (cs ! j) \<noteq> cid) \<Longrightarrow>
   removeControl_loop i cid cs = take k cs @ drop (Suc k) cs"
proof (induction i cid cs rule: removeControl_loop.induct)
  case (1 i cid cs)
  have il: "i < length cs" using "1.prems" by simp
  show ?case
  proof (cases "i = k")
    case True
    with il "1.prems" show ?thesis by (subst removeControl_loop.simps) simp
  next
    case False
    then have lt: "i < k" using "1.prems" by simp
    then have ne: "m_id (cs ! i) \<noteq> cid" using "1.prems" by simp
    have "removeControl_loop (Suc i) cid cs = take k cs @ drop (Suc k) cs"
      using "1.IH" [OF il ne] lt "1.prems" by simp
    with il ne show ?thesis by (subst removeControl_loop.simps) simp
  qed
qed

subsection \<open>The sample dialog\<close>

lemma dialog0_eq:
  "dialog0 =
     \<lparr>heap = heap0, heap_next = 1, m_matrix = matrix0, m_doc = doc0, connections = [],
      dialog_result = None, m_lastAssignedID = 0, m_function = Function_invalidId,
      m_sliderInputSource = Some 0, m_controls = [], m_nameEdit = ''Matrix 1'',
      m_functionEdit = ''No function'',
      m_instantCheck = False, m_inputUniverseEdit = KInputNone, m_inputChannelEdit = KInputNone,
      m_controlsTree = [], selectedItem = None, m_controlInputUniverseEdit = [],
      m_controlInputChannelEdit = [], m_keyEdit = []\<rparr>"
  by (simp add: dialog0_def VCMatrixProperties_def setupUi_def slotSetFunction_def Let_def
      updateSliderInputSource_def updateTree_def matrix0_def doc0_def Function_invalidId_def)

subsection \<open>What accept and the input slots write\<close>

lemma accept_loop_eq:
  "accept_loop i cs m = m\<lparr>customControls := customControls m @ drop i cs\<rparr>"
proof (induction i cs m rule: accept_loop.induct)
  case (1 i cs m)
  show ?case
  proof (cases "i < length cs")
    case True
    then show ?thesis
      using "1.IH" [OF True]
      by (subst accept_loop.simps) (simp add: addCustomControl_def Cons_nth_drop_Suc)
  next
    case False
    then show ?thesis by (subst accept_loop.simps) simp
  qed
qed

lemma slider_binding_slotSliderInputValueChanged:
  "slider_binding (slotSliderInputValueChanged u c s) =
     Some \<lparr>universe = u, channel = push_bit 16 (page (m_matrix s)) OR c\<rparr>"
  by (simp add: slotSliderInputValueChanged_def slider_binding_def deref_def Let_def
      new_QLCInputSource_def delete_QLCInputSource_def updateSliderInputSource_def
      split: option.splits prod.splits)

lemma slider_binding_slotChooseSliderInputClicked:
  "slider_binding (slotChooseSliderInputClicked True u c s) = Some \<lparr>universe = u, channel = c\<rparr>"
  by (simp add: slotChooseSliderInputClicked_def slider_binding_def deref_def Let_def
      new_QLCInputSource_def delete_QLCInputSource_def updateSliderInputSource_def
      split: option.splits prod.splits)

lemma findControl_Some:
  "findControl cid cs = Some i \<Longrightarrow> i < length cs \<and> m_id (cs ! i) = cid"
proof (induction cs arbitrary: i)
  case Nil
  then show ?case by simp
next
  case (Cons c cs)
  then show ?case by (auto split: if_splits)
qed

lemma getSelectedControl_bound:
  "getSelectedControl s = Some i \<Longrightarrow> i < length (m_controls s)"
  by (auto simp: getSelectedControl_def split: option.splits dest: findControl_Some)

lemma m_controls_updateControlInputSource [simp]:
  "m_controls (updateControlInputSource src s) = m_controls s"
  by (simp add: updateControlInputSource_def split: option.splits prod.splits)

lemma control_binding_slotControlInputValueChanged:
  "getSelectedControl s = Some i \<Longrightarrow>
   m_inputSource (m_controls (slotControlInputValueChanged u c s) ! i) =
     Some \<lparr>universe = u, channel = push_bit 16 (page (m_matrix s)) OR c\<rparr>"
  by (frule getSelectedControl_bound) (simp add: slotControlInputValueChanged_def Let_def)

lemma control_binding_slotChooseControlInputClicked:
  "getSelectedControl s = Some i \<Longrightarrow>
   m_inputSource (m_controls (slotChooseControlInputClicked True u c s) ! i) =
     Some \<lparr>universe = u, channel = c\<rparr>"
  by (frule getSelectedControl_bound) (simp add: slotChooseControlInputClicked_def Let_def)

subsection \<open>What the input slots leave alone\<close>

lemma slotSlider_frame:
  "m_matrix (slotSliderInputValueChanged u c s) = m_matrix s \<and>
   connections (slotSliderInputValueChanged u c s) = connections s \<and>
   m_controls (slotSliderInputValueChanged u c s) = m_controls s \<and>
   selectedItem (slotSliderInputValueChanged u c s) = selectedItem s"
  by (simp add: slotSliderInputValueChanged_def Let_def new_QLCInputSource_def
      delete_QLCInputSource_def updateSliderInputSource_def split: option.splits prod.splits)

lemma slotControl_frame:
  "m_matrix (slotControlInputValueChanged u c s) = m_matrix s \<and>
   connections (slotControlInputValueChanged u c s) = connections s \<and>
   slider_binding (slotControlInputValueChanged u c s) = slider_binding s \<and>
   selectedItem (slotControlInputValueChanged u c s) = selectedItem s"
  by (simp add: slotControlInputValueChanged_def Let_def updateControlInputSource_def
      slider_binding_def deref_def split: option.splits prod.splits)

lemma findControl_cong: "map m_id cs = map m_id cs' \<Longrightarrow> findControl cid cs = findControl cid cs'"
proof (induction cs arbitrary: cs')
  case Nil
  then show ?case by simp
next
  case (Cons c cs)
  then obtain c' ds where "cs' = c' # ds" by (cases cs') auto
  with Cons show ?case by auto
qed

lemma map_m_id_update:
  "i < length cs \<Longrightarrow> m_id c = m_id (cs ! i) \<Longrightarrow> map m_id (cs[i := c]) = map m_id cs"
  by (simp add: map_update list_update_same_conv)

lemma ids_slotControlInputValueChanged:
  "map m_id (m_controls (slotControlInputValueChanged u c s)) = map m_id (m_controls s)"
  by (auto simp: slotControlInputValueChanged_def Let_def map_m_id_update
      split: option.splits dest: getSelectedControl_bound)

lemma getSelectedControl_cong:
  "selectedItem s' = selectedItem s \<Longrightarrow> map m_id (m_controls s') = map m_id (m_controls s) \<Longrightarrow>
   getSelectedControl s' = getSelectedControl s"
  by (auto simp: getSelectedControl_def split: option.splits intro: findControl_cong)

lemma call_slot_frame:
  "m_matrix (call_slot sl u c s) = m_matrix s \<and>
   connections (call_slot sl u c s) = connections s \<and>
   getSelectedControl (call_slot sl u c s) = getSelectedControl s"
proof (cases sl)
  case SliderInputValueChanged
  have "getSelectedControl (slotSliderInputValueChanged u c s) = getSelectedControl s"
    by (rule getSelectedControl_cong) (simp_all add: slotSlider_frame)
  with SliderInputValueChanged show ?thesis
    by (simp add: slotSlider_frame)
next
  case ControlInputValueChanged
  have "getSelectedControl (slotControlInputValueChanged u c s) = getSelectedControl s"
    by (rule getSelectedControl_cong)
      (simp_all add: slotControl_frame ids_slotControlInputValueChanged)
  with ControlInputValueChanged show ?thesis
    by (simp add: slotControl_frame)
qed

lemma emit_slots_frame:
  "m_matrix (emit_slots sls u c s) = m_matrix s \<and>
   connections (emit_slots sls u c s) = connections s \<and>
   getSelectedControl (emit_slots sls u c s) = getSelectedControl s"
  by (induction sls arbitrary: s) (simp_all add: call_slot_frame)

lemma emit_slots_slider:
  "SliderInputValueChanged \<in> set sls \<or>
     slider_binding s = Some \<lparr>universe = u, channel = push_bit 16 (page (m_matrix s)) OR c\<rparr> \<Longrightarrow>
   slider_binding (emit_slots sls u c s) =
     Some \<lparr>universe = u, channel = push_bit 16 (page (m_matrix s)) OR c\<rparr>"
proof (induction sls arbitrary: s)
  case Nil
  then show ?case by simp
next
  case (Cons sl sls)
  let ?s = "call_slot sl u c s"
  have pg: "m_matrix ?s = m_matrix s" by (simp add: call_slot_frame)
  have "SliderInputValueChanged \<in> set sls \<or>
     slider_binding ?s = Some \<lparr>universe = u, channel = push_bit 16 (page (m_matrix ?s)) OR c\<rparr>"
  proof (cases sl)
    case SliderInputValueChanged
    then show ?thesis
      using slider_binding_slotSliderInputValueChanged [of u c s] pg by simp
  next
    case ControlInputValueChanged
    then show ?thesis using Cons.prems slotControl_frame [of u c s] by auto
  qed
  from Cons.IH [OF this] pg show ?case by simp
qed

lemma emit_slots_control:
  "getSelectedControl s = Some i \<Longrightarrow>
   ControlInputValueChanged \<in> set sls \<or>
     m_inputSource (m_controls s ! i) =
       Some \<lparr>universe = u, channel = push_bit 16 (page (m_matrix s)) OR c\<rparr> \<Longrightarrow>
   m_inputSource (m_controls (emit_slots sls u c s) ! i) =
     Some \<lparr>universe = u, channel = push_bit 16 (page (m_matrix s)) OR c\<rparr>"
proof (induction sls arbitrary: s)
  case Nil
  then show ?case by simp
next
  case (Cons sl sls)
  let ?s = "call_slot sl u c s"
  have pg: "m_matrix ?s = m_matrix s" and sel: "getSelectedControl ?s = Some i"
    using Cons.prems(1) by (simp_all add: call_slot_frame)
  have "ControlInputValueChanged \<in> set sls \<or>
     m_inputSource (m_controls ?s ! i) =
       Some \<lparr>universe = u, channel = push_bit 16 (page (m_matrix ?s)) OR c\<rparr>"
  proof (cases sl)
    case SliderInputValueChanged
    then show ?thesis using Cons.prems(2) slotSlider_frame [of u c s] by auto
  next
    case ControlInputValueChanged
    then show ?thesis
      using control_binding_slotControlInputValueChanged [OF Cons.prems(1), of u c] pg by simp
  qed
  from Cons.IH [OF sel this] pg show ?case by simp
qed

subsection \<open>Ids under each slot\<close>

lemma ids_slotSetFunction [simp]:
  "m_controls (slotSetFunction fid s) = m_controls s"
  "m_lastAssignedID (slotSetFunction fid s) = m_lastAssignedID s"
  by (simp_all add: slotSetFunction_def Let_def split: option.splits)

lemma ids_updateSliderInputSource [simp]:
  "m_controls (updateSliderInputSource s) = m_controls s"
  "m_lastAssignedID (updateSliderInputSource s) = m_lastAssignedID s"
  by (simp_all add: updateSliderInputSource_def split: option.splits prod.splits)

lemma ids_updateControlInputSource [simp]:
  "m_lastAssignedID (updateControlInputSource src s) = m_lastAssignedID s"
  by (simp add: updateControlInputSource_def split: option.splits prod.splits)

lemma ids_slider_slots [simp]:
  "m_controls (slotSliderInputValueChanged u c s) = m_controls s"
  "m_lastAssignedID (slotSliderInputValueChanged u c s) = m_lastAssignedID s"
  "m_controls (slotChooseSliderInputClicked a u c s) = m_controls s"
  "m_lastAssignedID (slotChooseSliderInputClicked a u c s) = m_lastAssignedID s"
  by (simp_all add: slotSliderInputValueChanged_def slotChooseSliderInputClicked_def Let_def
      new_QLCInputSource_def delete_QLCInputSource_def split: option.splits prod.splits)

lemma ids_control_slots:
  "control_ids (slotControlInputValueChanged u c s) = control_ids s"
  "m_lastAssignedID (slotControlInputValueChanged u c s) = m_lastAssignedID s"
  "control_ids (slotChooseControlInputClicked a u c s) = control_ids s"
  "m_lastAssignedID (slotChooseControlInputClicked a u c s) = m_lastAssignedID s"
  "control_ids (slotAttachKey a ks s) = control_ids s"
  "m_lastAssignedID (slotAttachKey a ks s) = m_lastAssignedID s"
  "control_ids (slotDetachKey s) = control_ids s"
  "m_lastAssignedID (slotDetachKey s) = m_lastAssignedID s"
  by (auto simp: control_ids_def slotControlInputValueChanged_def
      slotChooseControlInputClicked_def slotAttachKey_def slotDetachKey_def Let_def
      map_m_id_update split: option.splits dest: getSelectedControl_bound)

lemma ids_itemClicked:
  "m_controls (itemClicked row s) = m_controls s"
  "m_lastAssignedID (itemClicked row s) = m_lastAssignedID s"
  by (simp_all add: itemClicked_def slotTreeSelectionChanged_def Let_def split: option.splits)

lemma ids_emit_slots:
  "control_ids (emit_slots sls u c s) = control_ids s \<and>
   m_lastAssignedID (emit_slots sls u c s) = m_lastAssignedID s"
proof (induction sls arbitrary: s)
  case Nil
  show ?case by simp
next
  case (Cons sl sls)
  have "control_ids (call_slot sl u c s) = control_ids s \<and>
        m_lastAssignedID (call_slot sl u c s) = m_lastAssignedID s"
    by (cases sl) (simp_all add: ids_control_slots, simp add: control_ids_def)
  with Cons.IH [of "call_slot sl u c s"] show ?case by simp
qed

lemma removeControl_loop_shape:
  "removeControl_loop i cid cs = cs \<or>
   (\<exists>k<length cs. removeControl_loop i cid cs = take k cs @ drop (Suc k) cs)"
proof (induction i cid cs rule: removeControl_loop.induct)
  case (1 i cid cs)
  show ?case
  proof (cases "i < length cs \<and> m_id (cs ! i) \<noteq> cid")
    case True
    then have "removeControl_loop i cid cs = removeControl_loop (Suc i) cid cs"
      by (subst removeControl_loop.simps) simp
    with "1.IH" True show ?thesis by simp
  next
    case False
    show ?thesis
    proof (cases "i < length cs")
      case True
      with False have "removeControl_loop i cid cs = take i cs @ drop (Suc i) cs"
        by (subst removeControl_loop.simps) simp
      with True show ?thesis by blast
    next
      case False
      then show ?thesis by (subst removeControl_loop.simps) simp
    qed
  qed
qed

lemma ids_slotRemoveClicked:
  "m_lastAssignedID (slotRemoveClicked s) = m_lastAssignedID s \<and>
   (control_ids (slotRemoveClicked s) = control_ids s \<or>
    (\<exists>k<length (control_ids s).
       control_ids (slotRemoveClicked s) = take k (control_ids s) @ drop (Suc k) (control_ids s)))"
proof (cases "selectedItem s")
  case None
  then show ?thesis by (simp add: slotRemoveClicked_def)
next
  case (Some cid)
  have "control_ids (slotRemoveClicked s) = map m_id (removeControl_loop 0 cid (m_controls s))"
    and "m_lastAssignedID (slotRemoveClicked s) = m_lastAssignedID s"
    using Some by (simp_all add: slotRemoveClicked_def removeControl_def updateTree_def control_ids_def)
  then show ?thesis
    using removeControl_loop_shape [of 0 cid "m_controls s"]
    by (auto simp: control_ids_def take_map drop_map)
qed

lemma step_not_creates:
  assumes "\<not> creates e"
  shows "m_lastAssignedID (step e s) = m_lastAssignedID s \<and>
   (control_ids (step e s) = control_ids s \<or>
    (\<exists>k<length (control_ids s).
       control_ids (step e s) = take k (control_ids s) @ drop (Suc k) (control_ids s)))"
proof (cases e)
  case (InputValue u c v)
  then show ?thesis by (simp add: inputValueChanged_def ids_emit_slots)
next
  case RemoveClicked
  then show ?thesis using ids_slotRemoveClicked [of s] by simp
next
  case (AddStartColor col)
  then show ?thesis using assms by (simp add: slotAddStartColorClicked_def)
next
  case (AddEndColor col)
  then show ?thesis using assms by (simp add: slotAddEndColorClicked_def)
next
  case (AddAnimation ok t)
  then show ?thesis using assms by (auto simp: slotAddAnimationClicked_def)
next
  case (AddText ok t)
  then show ?thesis using assms by (auto simp: slotAddTextClicked_def)
qed (simp_all add: control_ids_def slotAttachFunction_def slotDetachFunction_def
      slotAutoDetectSliderInputToggled_def slotAutoDetectControlInputToggled_def
      ids_itemClicked ids_control_slots [unfolded control_ids_def])

lemma step_creates:
  assumes "creates e"
  shows "m_lastAssignedID (step e s) = m_lastAssignedID s + 1 \<and>
   (\<exists>c. m_controls (step e s) = m_controls s @ [c] \<and> m_id c = m_lastAssignedID s + 1)"
proof (cases e)
  case (AddStartColor col)
  then show ?thesis using assms
    by (simp add: slotAddStartColorClicked_def Let_def addControl_def updateTree_def
        VCMatrixControl_new_def)
next
  case (AddEndColor col)
  then show ?thesis using assms
    by (simp add: slotAddEndColorClicked_def Let_def addControl_def updateTree_def
        VCMatrixControl_new_def)
next
  case (AddAnimation ok t)
  then show ?thesis using assms
    by (simp add: slotAddAnimationClicked_def Let_def addControl_def updateTree_def
        VCMatrixControl_new_def)
next
  case (AddText ok t)
  then show ?thesis using assms
    by (simp add: slotAddTextClicked_def Let_def addControl_def updateTree_def
        VCMatrixControl_new_def)
qed (use assms in simp_all)

subsection \<open>Ids over a session\<close>

lemma sorted_remove_nth:
  fixes xs :: "quint8 list"
  assumes "sorted xs"
  shows "sorted (take k xs @ drop (Suc k) xs)"
proof -
  have "sorted (take k xs @ drop k xs)" using assms by simp
  then have a: "\<forall>x \<in> set (take k xs). \<forall>y \<in> set (drop k xs). x \<le> y"
    by (simp only: sorted_append) blast
  have "set (drop (Suc k) xs) \<subseteq> set (drop k xs)"
    by (metis drop_Suc set_drop_subset tl_drop drop_drop plus_1_eq_Suc)
  with a have "\<forall>x \<in> set (take k xs). \<forall>y \<in> set (drop (Suc k) xs). x \<le> y" by blast
  then show ?thesis
    using assms by (simp add: sorted_append sorted_wrt_take sorted_wrt_drop)
qed

lemma unat_succ_8:
  fixes w :: quint8
  assumes "unat w < 255"
  shows "unat (w + 1) = Suc (unat w)"
  using assms by (simp add: unat_word_ariths)

lemma step_ids_bounded:
  assumes "ids_bounded s" and "creates e \<Longrightarrow> unat (m_lastAssignedID s) < 255"
  shows "ids_bounded (step e s)"
proof (cases "creates e")
  case True
  let ?L = "m_lastAssignedID s"
  from step_creates [OF True, of s] obtain c where
    l: "m_lastAssignedID (step e s) = ?L + 1" and
    c: "m_controls (step e s) = m_controls s @ [c]" "m_id c = ?L + 1"
    by blast
  have lt: "?L < ?L + 1"
    using assms(2) [OF True] by (simp add: word_less_nat_alt unat_succ_8)
  have ids: "control_ids (step e s) = control_ids s @ [?L + 1]"
    using c by (simp add: control_ids_def)
  have le: "\<forall>i \<in> set (control_ids s). i \<le> ?L" "sorted (control_ids s)"
    using assms(1) by (simp_all add: ids_bounded_def)
  have "\<forall>i \<in> set (control_ids s). i \<le> ?L + 1"
    using le(1) lt by (meson order_less_imp_le order_trans)
  then show ?thesis
    using le(2) by (simp add: ids_bounded_def ids l sorted_append)
next
  case False
  from step_not_creates [OF False, of s] have
    l: "m_lastAssignedID (step e s) = m_lastAssignedID s" and
    sh: "control_ids (step e s) = control_ids s \<or>
       (\<exists>k<length (control_ids s).
          control_ids (step e s) = take k (control_ids s) @ drop (Suc k) (control_ids s))"
    by simp_all
  from sh show ?thesis
  proof
    assume "control_ids (step e s) = control_ids s"
    then show ?thesis using assms(1) l by (simp add: ids_bounded_def)
  next
    assume "\<exists>k<length (control_ids s).
          control_ids (step e s) = take k (control_ids s) @ drop (Suc k) (control_ids s)"
    then obtain k where
      k: "control_ids (step e s) = take k (control_ids s) @ drop (Suc k) (control_ids s)"
      by blast
    have "set (control_ids (step e s)) \<subseteq> set (control_ids s)"
      unfolding k using set_take_subset [of k "control_ids s"]
        set_drop_subset [of "Suc k" "control_ids s"] by auto
    moreover have "sorted (control_ids (step e s))"
      unfolding k using assms(1) by (intro sorted_remove_nth) (simp add: ids_bounded_def)
    ultimately show ?thesis using assms(1) l by (auto simp: ids_bounded_def)
  qed
qed

lemma step_length:
  "length (m_controls (step e s)) > length (m_controls s) \<longleftrightarrow> creates e"
proof (cases "creates e")
  case True
  then show ?thesis using step_creates [OF True, of s] by auto
next
  case False
  from step_not_creates [OF False, of s]
  have "length (control_ids (step e s)) \<le> length (control_ids s)" by auto
  then show ?thesis using False by (simp add: control_ids_def)
qed

lemma assigned_Cons_creates:
  "creates e \<Longrightarrow> assigned (e # es) s = (m_lastAssignedID s + 1) # assigned es (step e s)"
  using step_creates [of e s] step_length [of s e] by auto

lemma assigned_Cons_not_creates:
  "\<not> creates e \<Longrightarrow> assigned (e # es) s = assigned es (step e s)"
  using step_length [of s e] by simp

lemma run_ids:
  "ids_bounded s \<Longrightarrow> unat (m_lastAssignedID s) + length (filter creates evs) \<le> 255 \<Longrightarrow>
   ids_bounded (run evs s) \<and>
   unat (m_lastAssignedID (run evs s)) = unat (m_lastAssignedID s) + length (filter creates evs) \<and>
   map unat (assigned evs s) =
     [Suc (unat (m_lastAssignedID s)) ..<
      Suc (unat (m_lastAssignedID s)) + length (filter creates evs)]"
proof (induction evs arbitrary: s)
  case Nil
  then show ?case by simp
next
  case (Cons e evs)
  show ?case
  proof (cases "creates e")
    case True
    have lt: "unat (m_lastAssignedID s) < 255" using Cons.prems(2) True by simp
    have b: "ids_bounded (step e s)" using Cons.prems(1) lt by (intro step_ids_bounded) simp_all
    have l: "unat (m_lastAssignedID (step e s)) = Suc (unat (m_lastAssignedID s))"
      using step_creates [OF True, of s] lt by (simp add: unat_succ_8)
    have "unat (m_lastAssignedID (step e s)) + length (filter creates evs) \<le> 255"
      using Cons.prems(2) True l by simp
    from Cons.IH [OF b this] show ?thesis
      using True l lt
      by (simp add: assigned_Cons_creates unat_succ_8 upt_rec [of "Suc (unat (m_lastAssignedID s))"]
          del: assigned.simps upt_Suc)
  next
    case False
    have b: "ids_bounded (step e s)" using Cons.prems(1) False by (intro step_ids_bounded) simp_all
    have l: "m_lastAssignedID (step e s) = m_lastAssignedID s"
      using step_not_creates [OF False, of s] by simp
    have "unat (m_lastAssignedID (step e s)) + length (filter creates evs) \<le> 255"
      using Cons.prems(2) False l by simp
    from Cons.IH [OF b this] show ?thesis
      using False l by (simp add: assigned_Cons_not_creates del: assigned.simps)
  qed
qed

subsection \<open>Ids when the dialog opens\<close>

lemma ctor_loop_controls:
  "m_controls (ctor_loop cs s) = m_controls s @ map VCMatrixControl_copy cs \<and>
   m_lastAssignedID (ctor_loop cs s) = fold max (map m_id cs) (m_lastAssignedID s)"
proof (induction cs arbitrary: s)
  case Nil
  show ?case by simp
next
  case (Cons c cs)
  show ?case
  proof (cases "m_lastAssignedID s < m_id c")
    case True
    then have "max (m_id c) (m_lastAssignedID s) = m_id c"
      by (simp add: max.absorb1 less_imp_le)
    with True show ?thesis by (simp add: Cons.IH Let_def)
  next
    case False
    then have "max (m_id c) (m_lastAssignedID s) = m_lastAssignedID s"
      by (simp add: max.absorb2 not_less)
    with False show ?thesis by (simp add: Cons.IH Let_def)
  qed
qed

lemma fold_max_ge:
  fixes a :: quint8
  shows "a \<le> fold max xs a \<and> (\<forall>x \<in> set xs. x \<le> fold max xs a)"
proof (induction xs arbitrary: a)
  case Nil
  show ?case by simp
next
  case (Cons x xs)
  from Cons.IH [of "max x a"] show ?case
    by (auto intro: order_trans [OF max.cobounded1] order_trans [OF max.cobounded2])
qed

lemma set_qSort_insert: "set (qSort_insert lt x xs) = insert x (set xs)"
  by (induction xs) auto

lemma set_qSort: "set (qSort lt xs) = set xs"
  by (induction xs) (simp_all add: set_qSort_insert)

lemma sorted_qSort_insert:
  "sorted (map m_id xs) \<Longrightarrow> sorted (map m_id (qSort_insert compareControlsID x xs))"
  by (induction xs) (auto simp: set_qSort_insert compareControlsID.simps)

lemma sorted_qSort: "sorted (map m_id (qSort compareControlsID xs))"
  by (induction xs) (simp_all add: sorted_qSort_insert)

lemma ctor_ids:
  "m_controls (VCMatrixProperties matrix doc h n) =
     qSort compareControlsID (map VCMatrixControl_copy (customControls matrix)) \<and>
   m_lastAssignedID (VCMatrixProperties matrix doc h n) =
     fold max (map m_id (customControls matrix)) 0"
proof -
  have m: "m_matrix (slotSetFunction fid s) = m_matrix s" for fid s
    by (simp add: slotSetFunction_def Let_def split: option.splits)
  have u: "m_matrix (updateSliderInputSource s) = m_matrix s" for s
    by (simp add: updateSliderInputSource_def split: option.splits prod.splits)
  show ?thesis
    by (simp add: VCMatrixProperties_def Let_def updateTree_def ctor_loop_controls m u setupUi_def)
qed

lemma ctor_ids_bounded: "ids_bounded (VCMatrixProperties matrix doc h n)"
proof -
  have "m_id (VCMatrixControl_copy c) = m_id c" for c
    by (simp add: VCMatrixControl_copy_def)
  then have "m_id ` set (map VCMatrixControl_copy cs) = m_id ` set cs" for cs
    by (induction cs) auto
  then show ?thesis
    using fold_max_ge [of 0 "map m_id (customControls matrix)"]
    by (auto simp: ids_bounded_def control_ids_def ctor_ids set_qSort sorted_qSort)
qed

lemma run_append: "run (pre @ post) s = run post (run pre s)"
  by (induction pre arbitrary: s) simp_all

subsection \<open>The sample session\<close>

lemma QString_number_1: "QString_number (Suc 0) = ''1''"
  by (subst QString_number.simps) (simp add: digit_char_def)

lemma dialog1_eq:
  "dialog1 =
     \<lparr>heap = heap0, heap_next = 1, m_matrix = matrix0, m_doc = doc0, connections = [],
      dialog_result = None, m_lastAssignedID = 2, m_function = 7,
      m_sliderInputSource = Some 0,
      m_controls =
        [\<lparr>m_id = 1, m_type = StartColor, m_color = QColor_rgb 255 0 0, m_resource = [],
          m_inputSource = None, m_keySequence = []\<rparr>,
         \<lparr>m_id = 2, m_type = Text, m_color = QColor_invalid, m_resource = ''hi'',
          m_inputSource = None, m_keySequence = []\<rparr>],
      m_nameEdit = ''Foo'', m_functionEdit = ''Rainbow'',
      m_instantCheck = True, m_inputUniverseEdit = KInputNone, m_inputChannelEdit = KInputNone,
      m_controlsTree = [1, 2], selectedItem = Some 1, m_controlInputUniverseEdit = KInputNone,
      m_controlInputChannelEdit = KInputNone, m_keyEdit = []\<rparr>"
  by (simp add: dialog1_def session0_def dialog0_eq slotAttachFunction_def slotSetFunction_def
      Let_def doc0_def matrix0_def QString_number_1 simplified_def trimmed_def isSpace_def
      slotAddStartColorClicked_def slotAddTextClicked_def addControl_def updateTree_def
      VCMatrixControl_new_def itemClicked_def slotTreeSelectionChanged_def
      getSelectedControl_def updateControlInputSource_def)

subsection \<open>Digits and white space\<close>

lemma digit_char_not_space: "d < 10 \<Longrightarrow> \<not> isSpace (digit_char d)"
proof -
  assume "d < 10"
  then have "d \<in> {0, 1, 2, 3, 4, 5, 6, 7, 8, 9}" by auto
  then show ?thesis by (auto simp: digit_char_def isSpace_def)
qed

lemma QString_number_digits:
  "QString_number n \<noteq> [] \<and> (\<forall>c \<in> set (QString_number n). \<not> isSpace c)"
proof (induction n rule: QString_number.induct)
  case (1 n)
  show ?case
  proof (cases "n < 10")
    case True
    then show ?thesis
      by (subst (1 2) QString_number.simps) (simp add: digit_char_not_space)
  next
    case False
    then show ?thesis
      using "1.IH" by (subst (1 2) QString_number.simps) (simp add: digit_char_not_space)
  qed
qed

lemma collapse_no_space: "\<forall>c \<in> set t. \<not> isSpace c \<Longrightarrow> collapse t = t"
  by (induction t) simp_all

lemma trimmed_no_space: "\<forall>c \<in> set t. \<not> isSpace c \<Longrightarrow> trimmed t = t"
proof -
  assume a: "\<forall>c \<in> set t. \<not> isSpace c"
  then have "dropWhile isSpace t = t" by (cases t) simp_all
  moreover have "dropWhile isSpace (rev t) = rev t" using a by (cases "rev t") (simp, metis dropWhile.simps(2) list.set_intros(1) set_rev)
  ultimately show ?thesis by (simp add: trimmed_def)
qed

lemma simplified_no_space: "\<forall>c \<in> set t. \<not> isSpace c \<Longrightarrow> simplified t = t"
  by (simp add: simplified_def trimmed_no_space collapse_no_space)

lemma contains_self: "contains t t"
  by (cases t) simp_all

lemma m_nameEdit_slotSetFunction:
  "m_nameEdit (slotSetFunction fid s) =
     (case doc_function (m_doc s) fid of
        None \<Rightarrow> m_nameEdit s
      | Some f \<Rightarrow>
          if contains (simplified (m_nameEdit s)) (QString_number (unat (widget_id (m_matrix s))))
          then func_name f else m_nameEdit s)"
  by (simp add: slotSetFunction_def Let_def split: option.splits)

subsection \<open>The same control added many times\<close>

lemma assigned_replicate:
  "creates e \<Longrightarrow>
   length (assigned (replicate n e) s) = n \<and>
   (\<forall>k<n. assigned (replicate n e) s ! k = m_lastAssignedID s + of_nat (Suc k))"
proof (induction n arbitrary: s)
  case 0
  show ?case by simp
next
  case (Suc n)
  have l: "m_lastAssignedID (step e s) = m_lastAssignedID s + 1"
    using step_creates [OF Suc.prems, of s] by simp
  have a: "assigned (replicate (Suc n) e) s =
      (m_lastAssignedID s + 1) # assigned (replicate n e) (step e s)"
    using Suc.prems by (simp add: assigned_Cons_creates del: assigned.simps)
  from Suc.IH [OF Suc.prems, of "step e s"] show ?case
    unfolding a by (auto simp: l nth_Cons split: nat.splits)
qed

lemma control_ids_run_creates:
  "\<forall>e \<in> set evs. creates e \<Longrightarrow> control_ids (run evs s) = control_ids s @ assigned evs s"
proof (induction evs arbitrary: s)
  case Nil
  show ?case by simp
next
  case (Cons e evs)
  then have c: "creates e" by simp
  from step_creates [OF c, of s] have "control_ids (step e s) = control_ids s @ [m_lastAssignedID s + 1]"
    by (auto simp: control_ids_def)
  with Cons show ?case
    by (simp add: assigned_Cons_creates [OF c] del: assigned.simps)
qed

subsection \<open>The matrix during a session\<close>

lemma m_matrix_step: "m_matrix (step e s) = m_matrix s"
proof (cases e)
  case (InputValue u c v)
  then show ?thesis by (simp add: inputValueChanged_def emit_slots_frame)
qed (simp_all add: slotAttachFunction_def slotDetachFunction_def slotSetFunction_def Let_def
      slotAutoDetectSliderInputToggled_def slotAutoDetectControlInputToggled_def
      slotChooseSliderInputClicked_def new_QLCInputSource_def delete_QLCInputSource_def
      updateSliderInputSource_def itemClicked_def slotTreeSelectionChanged_def
      updateControlInputSource_def slotAddStartColorClicked_def slotAddEndColorClicked_def
      slotAddAnimationClicked_def slotAddTextClicked_def addControl_def updateTree_def
      slotRemoveClicked_def removeControl_def slotChooseControlInputClicked_def
      slotAttachKey_def slotDetachKey_def
      split: option.splits prod.splits)

lemma m_matrix_run: "m_matrix (reject (run evs s)) = m_matrix s \<and> m_matrix (run evs s) = m_matrix s"
  by (induction evs arbitrary: s) (simp_all add: m_matrix_step reject_def)

lemma connections_step:
  assumes "\<forall>b. e \<noteq> ToggleSliderAutoDetect b \<and> e \<noteq> ToggleControlAutoDetect b"
  shows "connections (step e s) = connections s"
proof (cases e)
  case (InputValue u c v)
  then show ?thesis by (simp add: inputValueChanged_def emit_slots_frame)
next
  case (ToggleSliderAutoDetect b)
  with assms show ?thesis by blast
next
  case (ToggleControlAutoDetect b)
  with assms show ?thesis by blast
qed (simp_all add: slotAttachFunction_def slotDetachFunction_def slotSetFunction_def Let_def
      slotChooseSliderInputClicked_def new_QLCInputSource_def delete_QLCInputSource_def
      updateSliderInputSource_def itemClicked_def slotTreeSelectionChanged_def
      updateControlInputSource_def slotAddStartColorClicked_def slotAddEndColorClicked_def
      slotAddAnimationClicked_def slotAddTextClicked_def addControl_def updateTree_def
      slotRemoveClicked_def removeControl_def slotChooseControlInputClicked_def
      slotAttachKey_def slotDetachKey_def
      split: option.splits prod.splits)

lemma closing_slots_keep_connections:
  "connections (accept s) = connections s \<and> connections (reject s) = connections s"
  by (simp add: accept_def reject_def Let_def)

lemma removeControl_loop_length:
  "length (removeControl_loop 0 cid cs) =
     length cs - (if cid \<in> m_id ` set cs then 1 else 0)"
proof (cases "cid \<in> m_id ` set cs")
  case False
  then have "removeControl_loop 0 cid cs = cs"
    by (intro removeControl_loop_none) auto
  with False show ?thesis by simp
next
  case True
  then have "\<exists>c \<in> set cs. m_id c = cid" by auto
  from split_list_first_prop [OF this] obtain ys c zs where
    s: "cs = ys @ c # zs" "m_id c = cid" "\<forall>y \<in> set ys. m_id y \<noteq> cid"
    by blast
  have "removeControl_loop 0 cid cs = take (length ys) cs @ drop (Suc (length ys)) cs"
    using s by (intro removeControl_loop_first) (auto simp: nth_append)
  with True s show ?thesis by simp
qed

lemma creates_sessions: "length (filter creates (session0 @ session1)) = 3"
  by (simp add: session0_def session1_def)

section \<open>The claims\<close>

text \<open>
  C1. Claimed: whatever is edited, a dialog that is cancelled leaves the matrix's caption,
  function id, instant-changes flag, input binding and custom controls as they were when
  it opened. No slot but \<open>accept\<close> writes a field of the matrix (lemma \<open>m_matrix_run\<close>),
  but the input binding does not survive: the constructor takes the matrix's own pointer
  (\<open>m_sliderInputSource = m_matrix->inputSource()\<close>), and \<open>slotSliderInputValueChanged\<close>
  and \<open>slotChooseSliderInputClicked\<close> delete the object behind it before they make a new
  one. On the sample matrix, whose slider is bound to universe 1, channel 5 at address 0:
  after auto-detect is switched on, one input value arrives and the dialog is rejected,
  the matrix still holds address 0 and the object at that address is gone. The same
  happens when a channel is chosen by hand.
\<close>

theorem cancel_after_input_event_frees_matrix_source:
  "inputSource (m_matrix dialog0) = Some 0 \<and>
   matrix_binding dialog0 = Some \<lparr>universe = 1, channel = 5\<rparr> \<and>
   inputSource (m_matrix (reject (run [ToggleSliderAutoDetect True, InputValue 3 9 200] dialog0)))
     = Some 0 \<and>
   heap (reject (run [ToggleSliderAutoDetect True, InputValue 3 9 200] dialog0)) 0 = None \<and>
   matrix_binding (reject (run [ToggleSliderAutoDetect True, InputValue 3 9 200] dialog0)) = None \<and>
   matrix_binding (reject (run [ChooseSliderInput True 3 9] dialog0)) = None"
  by (simp add: dialog0_eq matrix_binding_def deref_def heap0_def matrix0_def reject_def
      slotAutoDetectSliderInputToggled_def inputValueChanged_def slotSliderInputValueChanged_def
      slotChooseSliderInputClicked_def
      Let_def new_QLCInputSource_def delete_QLCInputSource_def updateSliderInputSource_def
      doc0_def)

text \<open>
  C2. For every state of the dialog, \<open>accept\<close> writes the name field, the function id and
  the instant-changes check box to the matrix, hands it the working slider input source,
  and replaces its custom controls by the working list in the list's order.
\<close>

theorem accept_writes_working_state:
  "caption (m_matrix (accept s)) = m_nameEdit s \<and>
   func (m_matrix (accept s)) = m_function s \<and>
   instantChanges (m_matrix (accept s)) = m_instantCheck s \<and>
   inputSource (m_matrix (accept s)) = m_sliderInputSource s \<and>
   matrix_binding (accept s) = slider_binding s \<and>
   customControls (m_matrix (accept s)) = m_controls s"
  by (simp add: accept_def Let_def accept_loop_eq setCaption_def setFunction_def
      setInstantChanges_def setInputSource_def resetCustomControls_def
      matrix_binding_def slider_binding_def deref_def split: option.splits)

text \<open>
  C2 on the sample session: the name is "Foo", the function 7, instant changes checked, and
  the working list holds the two controls made; after \<open>accept\<close> the matrix reports them.
\<close>

theorem accept_writes_working_state_witness:
  "caption (m_matrix (accept dialog1)) = ''Foo'' \<and>
   func (m_matrix (accept dialog1)) = 7 \<and>
   instantChanges (m_matrix (accept dialog1)) = True \<and>
   customControls (m_matrix (accept dialog1)) = [control1, control2] \<and>
   matrix_binding (accept dialog1) = Some \<lparr>universe = 1, channel = 5\<rparr>"
  using accept_writes_working_state [of dialog1]
  by (simp add: dialog1_eq control1_def control2_def slider_binding_def deref_def heap0_def)

text \<open>
  C3, amended. The id counter \<open>m_lastAssignedID\<close> is a \<open>quint8\<close>. It starts at the highest
  id among the matrix's controls (0 when there is none). In a session that keeps it at 255
  or below (the counter at opening plus the number of controls made is at most 255), the
  controls made get the next ids in turn, counter plus 1, plus 2 and so on, and no id
  that a working control has at any moment of the session (so none of a control removed
  later or before) is given to a control made after that moment.
\<close>

theorem ids_increase_until_wrap:
  assumes "s0 = VCMatrixProperties matrix doc h n"
    and "unat (m_lastAssignedID s0) + length (filter creates evs) \<le> 255"
  shows "m_lastAssignedID s0 = fold max (map m_id (customControls matrix)) 0 \<and>
    map unat (assigned evs s0) =
      [Suc (unat (m_lastAssignedID s0)) ..<
       Suc (unat (m_lastAssignedID s0)) + length (filter creates evs)] \<and>
    (\<forall>pre post. evs = pre @ post \<longrightarrow>
       (\<forall>c \<in> set (m_controls (run pre s0)). m_id c \<notin> set (assigned post (run pre s0))))"
proof (intro conjI allI impI ballI)
  show "m_lastAssignedID s0 = fold max (map m_id (customControls matrix)) 0"
    using assms(1) by (simp add: ctor_ids)
  have b: "ids_bounded s0" using assms(1) by (simp add: ctor_ids_bounded)
  show "map unat (assigned evs s0) =
      [Suc (unat (m_lastAssignedID s0)) ..<
       Suc (unat (m_lastAssignedID s0)) + length (filter creates evs)]"
    using run_ids [OF b assms(2)] by simp
  fix pre post c
  assume evs: "evs = pre @ post" and c: "c \<in> set (m_controls (run pre s0))"
  let ?s1 = "run pre s0"
  have "unat (m_lastAssignedID s0) + length (filter creates pre) \<le> 255"
    using assms(2) evs by simp
  from run_ids [OF b this] have b1: "ids_bounded ?s1"
    and l1: "unat (m_lastAssignedID ?s1) = unat (m_lastAssignedID s0) + length (filter creates pre)"
    by simp_all
  have "unat (m_lastAssignedID ?s1) + length (filter creates post) \<le> 255"
    using assms(2) evs l1 by simp
  from run_ids [OF b1 this] have a: "map unat (assigned post ?s1) =
     [Suc (unat (m_lastAssignedID ?s1)) ..<
      Suc (unat (m_lastAssignedID ?s1)) + length (filter creates post)]"
    by simp
  have le: "unat (m_id c) \<le> unat (m_lastAssignedID ?s1)"
    using b1 c by (auto simp: ids_bounded_def control_ids_def word_le_nat_alt)
  show "m_id c \<notin> set (assigned post ?s1)"
  proof
    assume "m_id c \<in> set (assigned post ?s1)"
    then have "unat (m_id c) \<in> set (map unat (assigned post ?s1))" by simp
    then show False unfolding a using le by simp
  qed
qed

text \<open>
  C3 on the sample sessions: the three controls made get ids 1, 2 and 3, and the ids of the
  two controls of the first session are not given again in the second, which removes one.
\<close>

theorem ids_increase_until_wrap_witness:
  "m_lastAssignedID dialog0 = 0 \<and>
   map unat (assigned (session0 @ session1) dialog0) = [1, 2, 3] \<and>
   m_id control1 \<notin> set (assigned session1 (run session0 dialog0)) \<and>
   m_id control2 \<notin> set (assigned session1 (run session0 dialog0))"
proof -
  have l0: "m_lastAssignedID dialog0 = 0" by (simp add: dialog0_eq)
  have h: "unat (m_lastAssignedID dialog0) + length (filter creates (session0 @ session1)) \<le> 255"
    unfolding l0 creates_sessions by simp
  have u: "[Suc 0..<4] = [1, 2, 3]" by (simp add: upt_rec)
  have m: "control1 \<in> set (m_controls (run session0 dialog0))"
    "control2 \<in> set (m_controls (run session0 dialog0))"
    using dialog1_eq by (simp_all add: dialog1_def control1_def control2_def)
  note th = ids_increase_until_wrap [OF dialog0_def h, unfolded l0 creates_sessions]
  from th have "map unat (assigned (session0 @ session1) dialog0) = [Suc 0..<4]"
    by simp
  moreover from th have "\<forall>c \<in> set (m_controls (run session0 dialog0)).
      m_id c \<notin> set (assigned session1 (run session0 dialog0))"
    by blast
  ultimately show ?thesis using m l0 u by auto
qed

text \<open>
  C3 as worded fails once the counter wraps. From the sample matrix, which has no control:
  of 256 texts added, the 255th gets id 255 and the 256th id 0. And when the first
  control, with id 1, is removed and 256 more are added, the last of them gets id 1 again.
\<close>

theorem ids_wrap_after_255:
  "customControls matrix0 = [] \<and>
   assigned (replicate 256 (AddText True ''x'')) dialog0 ! 254 = 255 \<and>
   assigned (replicate 256 (AddText True ''x'')) dialog0 ! 255 = 0 \<and>
   m_controls (run [AddText True ''x'', ClickItem 0, RemoveClicked] dialog0) = [] \<and>
   assigned ([AddText True ''x'', ClickItem 0, RemoveClicked] @ replicate 256 (AddText True ''x''))
     dialog0 ! 0 = 1 \<and>
   assigned ([AddText True ''x'', ClickItem 0, RemoveClicked] @ replicate 256 (AddText True ''x''))
     dialog0 ! 256 = 1"
proof -
  let ?e = "AddText True ''x''"
  have c: "creates ?e" by simp
  have l0: "m_lastAssignedID dialog0 = 0" by (simp add: dialog0_eq)
  let ?s3 = "step RemoveClicked (step (ClickItem 0) (step ?e dialog0))"
  have l3: "m_lastAssignedID ?s3 = 1"
    using step_creates [OF c, of dialog0]
      step_not_creates [of "ClickItem 0" "step ?e dialog0"]
      step_not_creates [of RemoveClicked "step (ClickItem 0) (step ?e dialog0)"]
    by (simp add: l0 del: step.simps)
  have a: "assigned (?e # ClickItem 0 # RemoveClicked # replicate 256 ?e) dialog0 =
      1 # assigned (replicate 256 ?e) ?s3"
    using assigned_Cons_creates [OF c, of _ dialog0]
    by (simp add: l0 assigned_Cons_not_creates del: assigned.simps step.simps)
  have r: "m_controls (run [?e, ClickItem 0, RemoveClicked] dialog0) = []"
    by (simp add: dialog0_eq slotAddTextClicked_def Let_def addControl_def updateTree_def
        VCMatrixControl_new_def itemClicked_def slotTreeSelectionChanged_def
        getSelectedControl_def updateControlInputSource_def doc0_def slotRemoveClicked_def
        removeControl_def removeControl_loop.simps)
  show ?thesis
    using assigned_replicate [OF c, of 256 dialog0] assigned_replicate [OF c, of 256 ?s3]
    by (simp add: matrix0_def l0 l3 a r del: assigned.simps step.simps run.simps replicate.simps)
qed

text \<open>
  C4, amended. The working list is in ascending order of id when the constructor returns,
  and after every session that keeps the \<open>quint8\<close> id counter at 255 or below (the counter
  at opening plus the number of controls made is at most 255).
\<close>

theorem controls_sorted_until_wrap:
  assumes "s0 = VCMatrixProperties matrix doc h n"
    and "unat (m_lastAssignedID s0) + length (filter creates evs) \<le> 255"
  shows "sorted (map m_id (m_controls s0)) \<and> sorted (map m_id (m_controls (run evs s0)))"
proof -
  have b: "ids_bounded s0" using assms(1) by (simp add: ctor_ids_bounded)
  from run_ids [OF b assms(2)] have "ids_bounded (run evs s0)" by simp
  with b show ?thesis by (simp add: ids_bounded_def control_ids_def)
qed

text \<open>
  C4 on the sample sessions.
\<close>

theorem controls_sorted_until_wrap_witness:
  "sorted (map m_id (m_controls dialog0)) \<and>
   sorted (map m_id (m_controls (run (session0 @ session1) dialog0)))"
proof -
  have l0: "m_lastAssignedID dialog0 = 0" by (simp add: dialog0_eq)
  have h: "unat (m_lastAssignedID dialog0) + length (filter creates (session0 @ session1)) \<le> 255"
    unfolding l0 creates_sessions by simp
  from controls_sorted_until_wrap [OF dialog0_def h] show ?thesis .
qed

text \<open>
  C4 as worded fails once the counter wraps: \<open>addControl\<close> appends and nothing sorts
  again. From the sample matrix, which has no control, 256 texts added leave the working
  list out of order (id 0 stands after id 255).
\<close>

theorem controls_unsorted_after_wrap:
  "customControls matrix0 = [] \<and>
   \<not> sorted (map m_id (m_controls (run (replicate 256 (AddText True ''x'')) dialog0)))"
proof -
  let ?e = "AddText True ''x''"
  have c: "creates ?e" by simp
  have l0: "m_lastAssignedID dialog0 = 0" "m_controls dialog0 = []"
    by (simp_all add: dialog0_eq)
  have ids: "map m_id (m_controls (run (replicate 256 ?e) dialog0)) = assigned (replicate 256 ?e) dialog0"
    using control_ids_run_creates [of "replicate 256 ?e" dialog0]
    by (simp add: l0 control_ids_def del: replicate.simps run.simps assigned.simps)
  have n: "length (assigned (replicate 256 ?e) dialog0) = 256"
    "assigned (replicate 256 ?e) dialog0 ! 254 = 255"
    "assigned (replicate 256 ?e) dialog0 ! 255 = 0"
    using assigned_replicate [OF c, of 256 dialog0] by (simp_all add: l0)
  have "\<not> sorted (assigned (replicate 256 ?e) dialog0)"
  proof
    assume "sorted (assigned (replicate 256 ?e) dialog0)"
    then have "assigned (replicate 256 ?e) dialog0 ! 254 \<le> assigned (replicate 256 ?e) dialog0 ! 255"
      by (rule sorted_nth_mono) (simp_all add: n)
    then show False by (simp add: n)
  qed
  then show ?thesis by (simp add: ids matrix0_def)
qed

text \<open>
  C5, amended. An add slot whose dialog returned an invalid colour, was cancelled, or
  returned an empty string leaves the dialog's state as it was: no control is made, and
  the working list and the id counter are unchanged. The text is tested with \<open>isEmpty\<close>
  as it was typed; it is not trimmed.
\<close>

theorem no_control_without_payload:
  "(\<not> isValid col \<longrightarrow> slotAddStartColorClicked col s = s \<and> slotAddEndColorClicked col s = s) \<and>
   (\<not> ok \<or> text = [] \<longrightarrow>
      slotAddAnimationClicked ok text s = s \<and> slotAddTextClicked ok text s = s)"
  by (auto simp: slotAddStartColorClicked_def slotAddEndColorClicked_def
      slotAddAnimationClicked_def slotAddTextClicked_def)

text \<open>
  C5 on the sample session: each add slot, with an invalid colour, a cancelled dialog and an
  empty string.
\<close>

theorem no_control_without_payload_witness:
  "slotAddStartColorClicked QColor_invalid dialog1 = dialog1 \<and>
   slotAddEndColorClicked QColor_invalid dialog1 = dialog1 \<and>
   slotAddAnimationClicked False ''Plasma'' dialog1 = dialog1 \<and>
   slotAddTextClicked False ''Plasma'' dialog1 = dialog1 \<and>
   slotAddAnimationClicked True [] dialog1 = dialog1 \<and>
   slotAddTextClicked True [] dialog1 = dialog1"
  using no_control_without_payload [of QColor_invalid dialog1 False "''Plasma''"]
    no_control_without_payload [of QColor_invalid dialog1 True "[]"]
  by simp

text \<open>
  C5 as worded fails for a text of white space only: two spaces are empty after trimming,
  yet \<open>slotAddTextClicked\<close> makes a control and moves the id counter.
\<close>

theorem whitespace_text_makes_control:
  "trimmed ''  '' = [] \<and>
   length (m_controls dialog0) = 0 \<and> m_lastAssignedID dialog0 = 0 \<and>
   length (m_controls (slotAddTextClicked True ''  '' dialog0)) = 1 \<and>
   m_lastAssignedID (slotAddTextClicked True ''  '' dialog0) = 1"
  by (simp add: trimmed_def isSpace_def dialog0_eq slotAddTextClicked_def Let_def addControl_def
      updateTree_def)

text \<open>
  C6. For every universe and channel of an input value (so also for a channel below
  65536): the slider slot binds the slider to the channel with the matrix's page in the
  bits from 16 up, \<open>(page << 16) | channel\<close>, and so does the control slot for the
  selected control; a channel chosen in the channel selection is stored as it is, for the
  slider and for the selected control. The shift is taken on 32 bits.
\<close>

theorem page_folding_auto_detect_only:
  "slider_binding (slotSliderInputValueChanged u c s) =
     Some \<lparr>universe = u, channel = push_bit 16 (page (m_matrix s)) OR c\<rparr> \<and>
   slider_binding (slotChooseSliderInputClicked True u c s) =
     Some \<lparr>universe = u, channel = c\<rparr> \<and>
   (\<forall>i. getSelectedControl s = Some i \<longrightarrow>
      m_inputSource (m_controls (slotControlInputValueChanged u c s) ! i) =
        Some \<lparr>universe = u, channel = push_bit 16 (page (m_matrix s)) OR c\<rparr> \<and>
      m_inputSource (m_controls (slotChooseControlInputClicked True u c s) ! i) =
        Some \<lparr>universe = u, channel = c\<rparr>)"
  using slider_binding_slotSliderInputValueChanged slider_binding_slotChooseSliderInputClicked
    control_binding_slotControlInputValueChanged control_binding_slotChooseControlInputClicked
  by blast

text \<open>
  C6 on the sample session: the matrix is on page 2 and the first control is selected, so
  channel 9 is bound as 131081 when detected and as 9 when chosen.
\<close>

theorem page_folding_auto_detect_only_witness:
  "getSelectedControl dialog1 = Some 0 \<and>
   slider_binding (slotSliderInputValueChanged 3 9 dialog1) =
     Some \<lparr>universe = 3, channel = 131081\<rparr> \<and>
   slider_binding (slotChooseSliderInputClicked True 3 9 dialog1) =
     Some \<lparr>universe = 3, channel = 9\<rparr> \<and>
   m_inputSource (m_controls (slotControlInputValueChanged 3 9 dialog1) ! 0) =
     Some \<lparr>universe = 3, channel = 131081\<rparr> \<and>
   m_inputSource (m_controls (slotChooseControlInputClicked True 3 9 dialog1) ! 0) =
     Some \<lparr>universe = 3, channel = 9\<rparr>"
proof -
  have sel: "getSelectedControl dialog1 = Some 0"
    by (simp add: dialog1_eq getSelectedControl_def)
  have pg: "push_bit 16 (page (m_matrix dialog1)) OR 9 = (131081 :: quint32)"
    by (simp add: dialog1_eq matrix0_def)
  show ?thesis
    using page_folding_auto_detect_only [of 3 9 dialog1] sel by (simp add: pg)
qed

text \<open>
  C7, amended. When a function is attached, the name field is set to the function's name
  exactly when the document has the function and the name, simplified, contains the
  decimal digits of the matrix's id; otherwise the name stays. In particular a name that
  is the matrix's id is replaced, and so is any other name that contains the digits.
\<close>

theorem attach_renames_when_name_contains_id:
  "(doc_function (m_doc s) fid = None \<longrightarrow>
      m_nameEdit (slotAttachFunction True (fid # rest) s) = m_nameEdit s) \<and>
   (\<forall>f. doc_function (m_doc s) fid = Some f \<longrightarrow>
      m_nameEdit (slotAttachFunction True (fid # rest) s) =
        (if contains (simplified (m_nameEdit s)) (QString_number (unat (widget_id (m_matrix s))))
         then func_name f else m_nameEdit s) \<and>
      (m_nameEdit s = QString_number (unat (widget_id (m_matrix s))) \<longrightarrow>
         m_nameEdit (slotAttachFunction True (fid # rest) s) = func_name f))"
proof -
  let ?n = "QString_number (unat (widget_id (m_matrix s)))"
  have "simplified ?n = ?n"
    using QString_number_digits by (intro simplified_no_space) blast
  then have "m_nameEdit s = ?n \<Longrightarrow> contains (simplified (m_nameEdit s)) ?n"
    by (simp add: contains_self)
  then show ?thesis
    by (auto simp: slotAttachFunction_def m_nameEdit_slotSetFunction)
qed

text \<open>
  C7 on the sample dialogs: "Matrix 1" and "1" are replaced (the matrix has id 1), "Foo" is
  not, and no name is replaced by a function the document does not have.
\<close>

theorem attach_renames_when_name_contains_id_witness:
  "m_nameEdit (slotAttachFunction True [5] dialog0) = ''Chase'' \<and>
   m_nameEdit (slotAttachFunction True [5] dialog1) = ''Foo'' \<and>
   m_nameEdit (slotAttachFunction True [6] dialog0) = ''Matrix 1'' \<and>
   m_nameEdit (slotAttachFunction True [5] (dialog0\<lparr>m_nameEdit := ''1''\<rparr>)) = ''Chase''"
  using attach_renames_when_name_contains_id [of dialog0 5 "[]"]
    attach_renames_when_name_contains_id [of dialog1 5 "[]"]
    attach_renames_when_name_contains_id [of dialog0 6 "[]"]
    attach_renames_when_name_contains_id [of "dialog0\<lparr>m_nameEdit := ''1''\<rparr>" 5 "[]"]
  by (simp add: dialog0_eq dialog1_eq doc0_def matrix0_def QString_number_1 simplified_def
      trimmed_def isSpace_def)

text \<open>
  C7 as worded fails for an edited name that contains the id: the name "Matrix 1" is not
  the id "1" of the sample matrix, and attaching function 5 replaces it by "Chase".
\<close>

theorem attach_renames_edited_name:
  "m_nameEdit dialog0 = ''Matrix 1'' \<and>
   QString_number (unat (widget_id (m_matrix dialog0))) = ''1'' \<and>
   m_nameEdit (slotAttachFunction True [5] dialog0) = ''Chase''"
  by (simp add: dialog0_eq slotAttachFunction_def slotSetFunction_def Let_def doc0_def
      matrix0_def QString_number_1 simplified_def trimmed_def isSpace_def)

text \<open>
  C8. While the slider slot is connected, after two input values in a row the slider is
  bound to the universe and the folded channel of the second, whatever the first was; and
  while the control slot is connected and a control is selected, so is that control.
\<close>

theorem last_input_event_wins:
  "(SliderInputValueChanged \<in> set (connections s) \<longrightarrow>
      slider_binding (inputValueChanged u2 c2 v2 (inputValueChanged u1 c1 v1 s)) =
        Some \<lparr>universe = u2, channel = push_bit 16 (page (m_matrix s)) OR c2\<rparr>) \<and>
   (\<forall>i. ControlInputValueChanged \<in> set (connections s) \<and> getSelectedControl s = Some i \<longrightarrow>
      m_inputSource (m_controls (inputValueChanged u2 c2 v2 (inputValueChanged u1 c1 v1 s)) ! i) =
        Some \<lparr>universe = u2, channel = push_bit 16 (page (m_matrix s)) OR c2\<rparr>)"
proof -
  let ?s1 = "inputValueChanged u1 c1 v1 s"
  have fr: "m_matrix ?s1 = m_matrix s" "connections ?s1 = connections s"
    "getSelectedControl ?s1 = getSelectedControl s"
    by (simp_all add: inputValueChanged_def emit_slots_frame)
  show ?thesis
  proof (intro conjI impI allI)
    assume "SliderInputValueChanged \<in> set (connections s)"
    then have "SliderInputValueChanged \<in> set (connections ?s1)" using fr by simp
    then show "slider_binding (inputValueChanged u2 c2 v2 ?s1) =
        Some \<lparr>universe = u2, channel = push_bit 16 (page (m_matrix s)) OR c2\<rparr>"
      using emit_slots_slider [of "connections ?s1" ?s1 u2 c2] fr
      by (simp add: inputValueChanged_def [of u2 c2 v2])
  next
    fix i
    assume a: "ControlInputValueChanged \<in> set (connections s) \<and> getSelectedControl s = Some i"
    then have "ControlInputValueChanged \<in> set (connections ?s1)" "getSelectedControl ?s1 = Some i"
      using fr by simp_all
    then show "m_inputSource (m_controls (inputValueChanged u2 c2 v2 ?s1) ! i) =
        Some \<lparr>universe = u2, channel = push_bit 16 (page (m_matrix s)) OR c2\<rparr>"
      using emit_slots_control [of ?s1 i "connections ?s1" u2 c2] fr
      by (simp add: inputValueChanged_def [of u2 c2 v2])
  qed
qed

text \<open>
  C8 on the sample session with both auto-detect buttons down: after the values (4, 8) and
  (3, 9) the slider and the selected control are bound to universe 3, channel 131081.
\<close>

theorem last_input_event_wins_witness:
  "connections (slotAutoDetectControlInputToggled True (slotAutoDetectSliderInputToggled True dialog1))
     = [SliderInputValueChanged, ControlInputValueChanged] \<and>
   slider_binding (inputValueChanged 3 9 200 (inputValueChanged 4 8 100
       (slotAutoDetectControlInputToggled True (slotAutoDetectSliderInputToggled True dialog1)))) =
     Some \<lparr>universe = 3, channel = 131081\<rparr> \<and>
   m_inputSource (m_controls (inputValueChanged 3 9 200 (inputValueChanged 4 8 100
       (slotAutoDetectControlInputToggled True (slotAutoDetectSliderInputToggled True dialog1)))) ! 0) =
     Some \<lparr>universe = 3, channel = 131081\<rparr>"
proof -
  let ?s = "slotAutoDetectControlInputToggled True (slotAutoDetectSliderInputToggled True dialog1)"
  have c: "connections ?s = [SliderInputValueChanged, ControlInputValueChanged]"
    by (simp add: slotAutoDetectControlInputToggled_def slotAutoDetectSliderInputToggled_def
        dialog1_eq)
  have sel: "getSelectedControl ?s = Some 0"
    by (simp add: slotAutoDetectControlInputToggled_def slotAutoDetectSliderInputToggled_def
        dialog1_eq getSelectedControl_def)
  have pg: "push_bit 16 (page (m_matrix ?s)) OR 9 = (131081 :: quint32)"
    by (simp add: slotAutoDetectControlInputToggled_def slotAutoDetectSliderInputToggled_def
        dialog1_eq matrix0_def)
  show ?thesis
    using last_input_event_wins [of ?s 3 9 200 4 8 100] c sel by (simp add: pg)
qed



text \<open>
  C10. \<open>removeControl\<close> leaves the state as it is when no working control has the id.
  When one has, it removes the first such control and nothing else: the controls before
  it and after it stay, in their order. Either way the list loses at most one element.
  The loop reads the list only below its length, so there is no error to raise.
\<close>

theorem removeControl_first_match_only:
  "((\<forall>c \<in> set (m_controls s). m_id c \<noteq> cid) \<longrightarrow> removeControl cid s = s) \<and>
   (m_controls s = ys @ c # zs \<and> m_id c = cid \<and> (\<forall>y \<in> set ys. m_id y \<noteq> cid) \<longrightarrow>
      removeControl cid s = s\<lparr>m_controls := ys @ zs\<rparr>) \<and>
   length (m_controls (removeControl cid s)) =
     length (m_controls s) - (if cid \<in> m_id ` set (m_controls s) then 1 else 0)"
proof (intro conjI impI)
  assume "\<forall>c \<in> set (m_controls s). m_id c \<noteq> cid"
  then have "removeControl_loop 0 cid (m_controls s) = m_controls s"
    by (intro removeControl_loop_none) simp
  then show "removeControl cid s = s" by (simp add: removeControl_def)
next
  assume a: "m_controls s = ys @ c # zs \<and> m_id c = cid \<and> (\<forall>y \<in> set ys. m_id y \<noteq> cid)"
  have "removeControl_loop 0 cid (ys @ c # zs) =
      take (length ys) (ys @ c # zs) @ drop (Suc (length ys)) (ys @ c # zs)"
    using a by (intro removeControl_loop_first) (auto simp: nth_append)
  then show "removeControl cid s = s\<lparr>m_controls := ys @ zs\<rparr>"
    using a by (simp add: removeControl_def)
next
  show "length (m_controls (removeControl cid s)) =
     length (m_controls s) - (if cid \<in> m_id ` set (m_controls s) then 1 else 0)"
    using removeControl_loop_length [of cid "m_controls s"] by (simp add: removeControl_def)
qed

text \<open>
  C10 on the sample session: removing id 2 leaves the first control, and removing id 9,
  which no control has, changes nothing.
\<close>

theorem removeControl_first_match_only_witness:
  "m_controls dialog1 = [control1, control2] \<and>
   removeControl 2 dialog1 = dialog1\<lparr>m_controls := [control1]\<rparr> \<and>
   removeControl 9 dialog1 = dialog1 \<and>
   length (m_controls (removeControl 2 dialog1)) = 1"
  using removeControl_first_match_only [of dialog1 2 "[control1]" control2 "[]"]
    removeControl_first_match_only [of dialog1 9 "[]" control1 "[]"]
  by (simp add: dialog1_eq control1_def control2_def)

end
